theory Spec2Isabelle
  imports Main "HOL-Library.AList" "HOL-Library.Char_ord" "HOL-Library.List_Lexorder"
begin

text \<open>
  A shallow embedding of the inventory plugin \<^verbatim>\<open>plugins/inventory/vmware_vm_inventory.py\<close>:
  the property flattener and the dotted-path getter of \<^verbatim>\<open>BaseVMwareInventory\<close>, and the cache
  replay, the filter-spec builder and the live enumeration of \<^verbatim>\<open>InventoryModule\<close>.
  Python exceptions are values: a function that can raise returns \<open>exc + 'a\<close>, with \<open>Inl\<close> the
  exception.  Dicts are association lists in insertion order (\<open>map_of\<close> reads a key,
  \<open>AList.update\<close> assigns it, \<open>AList.delete\<close> pops it).  Objects that are mutated in place are
  passed in and returned.
\<close>

section \<open>Python values, attributes and exceptions\<close>

text \<open>
  The plugin walks arbitrary backend objects by reflection (\<^verbatim>\<open>dir\<close>, \<^verbatim>\<open>getattr\<close>,
  \<^verbatim>\<open>callable\<close>, \<^verbatim>\<open>json.dumps\<close>).  A Python value is modelled by what these four
  operations observe of it:
  \<^item> \<open>Prim j as\<close>: a value that \<^verbatim>\<open>json.dumps\<close> accepts (content \<open>j\<close>), with its attribute
    table \<open>as\<close>;
  \<^item> \<open>Obj c as\<close>: a value that \<^verbatim>\<open>json.dumps\<close> rejects, with its \<^verbatim>\<open>callable\<close> flag \<open>c\<close> and its
    attribute table;
  \<^item> \<open>Dict kvs\<close>: a plain \<^verbatim>\<open>dict\<close> with string keys, in insertion order; it is serialisable
    exactly when all its values are.
  An attribute table lists the names \<^verbatim>\<open>dir\<close> reports; reading a listed name either yields a
  value or raises, reading any other name raises \<^verbatim>\<open>AttributeError\<close>.
\<close>

datatype json = JNull | JBool bool | JInt int | JStr string
  | JArr "json list" | JObj "(string \<times> json) list"

datatype exc = AttributeError | IndexError | KeyError | TypeError | NoPermission
  | AnsibleError string | OtherException string

datatype pyval =
    Prim json "(string \<times> attr) list"
  | Obj bool "(string \<times> attr) list"
  | Dict "(string \<times> pyval) list"
and attr = Val pyval | Raise exc

text \<open>\<^verbatim>\<open>json.dumps(v)\<close> succeeds.\<close>

fun serializable :: "pyval \<Rightarrow> bool" where
  "serializable (Prim j as) = True"
| "serializable (Obj c as) = False"
| "serializable (Dict kvs) = list_all (\<lambda>kv. serializable (snd kv)) kvs"

text \<open>
  The attribute table of the built-in \<^verbatim>\<open>dict\<close> type belongs to the Python runtime, not to
  the plugin; the functions below take it as the parameter \<open>da\<close>.
\<close>

definition attrs_of :: "(string \<times> attr) list \<Rightarrow> pyval \<Rightarrow> (string \<times> attr) list" where
  "attrs_of da v = (case v of Prim j as \<Rightarrow> as | Obj c as \<Rightarrow> as | Dict kvs \<Rightarrow> da)"

definition dir_py :: "(string \<times> attr) list \<Rightarrow> pyval \<Rightarrow> string list" where
  "dir_py da v = map fst (attrs_of da v)"

definition getattr_py :: "(string \<times> attr) list \<Rightarrow> pyval \<Rightarrow> string \<Rightarrow> attr" where
  "getattr_py da v name =
     (case map_of (attrs_of da v) name of None \<Rightarrow> Raise AttributeError | Some a \<Rightarrow> a)"

definition callable_py :: "pyval \<Rightarrow> bool" where
  "callable_py v = (case v of Obj c as \<Rightarrow> c | _ \<Rightarrow> False)"

definition startswith :: "string \<Rightarrow> string \<Rightarrow> bool" where
  "startswith s p = (take (length p) s = p)"

definition lower_char :: "char \<Rightarrow> char" where
  "lower_char c =
     (let n = of_char c :: nat in if 65 \<le> n \<and> n \<le> 90 then char_of (n + 32) else c)"

definition lower :: "string \<Rightarrow> string" where
  "lower s = map lower_char s"

text \<open>\<^verbatim>\<open>s.split(c)\<close> for a one-character separator.\<close>

fun split_on :: "char \<Rightarrow> string \<Rightarrow> string list" where
  "split_on c [] = [[]]"
| "split_on c (x # xs) =
     (if x = c then [] # split_on c xs
      else (case split_on c xs of [] \<Rightarrow> [[x]] | w # ws \<Rightarrow> (x # w) # ws))"

text \<open>\<^verbatim>\<open>k in d\<close> for a dict kept as an association list.\<close>

definition has_key :: "'k \<Rightarrow> ('k \<times> 'v) list \<Rightarrow> bool" where
  "has_key k d = (k \<in> fst ` set d)"

text \<open>Truth value of an optional string (\<^verbatim>\<open>None\<close> and \<^verbatim>\<open>''\<close> are false).\<close>

definition truthy :: "'a list option \<Rightarrow> bool" where
  "truthy s = (case s of None \<Rightarrow> False | Some x \<Rightarrow> x \<noteq> [])"


section \<open>Property flattener: \<^verbatim>\<open>BaseVMwareInventory._process_object_types\<close>\<close>


text \<open>
  The \<^verbatim>\<open>try\<close> around \<^verbatim>\<open>json.dumps\<close> is the test \<open>serializable\<close>; the \<^verbatim>\<open>try\<close> around
  \<^verbatim>\<open>getattr\<close> catches every exception (\<open>Raise e\<close> continues the loop); the \<^verbatim>\<open>try\<close> around the
  recursive call catches \<^verbatim>\<open>vim.fault.NoPermission\<close> only.
\<close>

function process_object_types :: "(string \<times> attr) list \<Rightarrow> pyval \<Rightarrow> nat \<Rightarrow> exc + pyval" where
  "process_object_types da vobj level =
     (if serializable vobj then Inr vobj
      else
        let properties = dir_py da vobj;
            properties = [x \<leftarrow> properties. \<not> startswith x ''_''];
            properties = [x \<leftarrow> properties.
                            x \<notin> set [''Array'', ''disabledMethod'', ''declaredAlarmState'']];
            properties = sort properties
        in map_sum id Dict
             (fold (\<lambda>prop acc. case acc of
                      Inl e \<Rightarrow> Inl e
                    | Inr rdata \<Rightarrow>
                        (case getattr_py da vobj prop of
                           Raise e \<Rightarrow> Inr rdata
                         | Val propToSerialize \<Rightarrow>
                             if callable_py propToSerialize then Inr rdata
                             else if level + 1 \<le> 2 then
                               (case process_object_types da propToSerialize (level + 1) of
                                  Inl e \<Rightarrow> if e = NoPermission then Inr rdata else Inl e
                                | Inr r \<Rightarrow> Inr (AList.update (lower prop) r rdata))
                             else Inr rdata))
                   properties (Inr [])))"
  by pat_completeness auto
termination
  by (relation "measure (\<lambda>(da, vobj, level). 3 - level)") auto

declare process_object_types.simps [simp del]




section \<open>Dotted-path getter: \<^verbatim>\<open>BaseVMwareInventory._get_object_prop\<close>\<close>

text \<open>
  \<open>Inr None\<close> is the early \<^verbatim>\<open>return None\<close>, \<open>Inr (Some v)\<close> the final \<^verbatim>\<open>return result\<close>, and
  \<open>Inl e\<close> an exception that leaves the function.
\<close>

fun get_object_prop :: "(string \<times> attr) list \<Rightarrow> pyval \<Rightarrow> string list \<Rightarrow> exc + pyval option" where
  "get_object_prop da result [] = Inr (Some result)"
| "get_object_prop da result (attribute # attributes) =
     (case getattr_py da result attribute of
        Raise e \<Rightarrow> if e = AttributeError \<or> e = IndexError then Inr None else Inl e
      | Val r \<Rightarrow>
          (case process_object_types da r 0 of
             Inl e \<Rightarrow> Inl e
           | Inr r' \<Rightarrow> get_object_prop da r' attributes))"

text \<open>
  The public attributes of Python 3's built-in \<^verbatim>\<open>dict\<close>: eleven bound methods.  A bound
  method is callable, is rejected by \<^verbatim>\<open>json.dumps\<close>, and \<^verbatim>\<open>dir\<close> reports only private names on it.
\<close>

definition bound_method :: pyval where
  "bound_method = Obj True []"

definition py_dict_attrs :: "(string \<times> attr) list" where
  "py_dict_attrs = map (\<lambda>n. (n, Val bound_method))
     [''clear'', ''copy'', ''fromkeys'', ''get'', ''items'', ''keys'', ''pop'', ''popitem'',
      ''setdefault'', ''update'', ''values'']"


section \<open>The inventory and the cache snapshot\<close>

text \<open>
  A host variable holds a Python value or \<^verbatim>\<open>None\<close>.  A snapshot maps a group name to
  \<^verbatim>\<open>{'hosts': [...]}\<close> and \<^verbatim>\<open>'_meta'\<close> to \<^verbatim>\<open>{'hostvars': {...}}\<close>; an entry is a dict that may
  hold either key.
\<close>

type_synonym vars = "(string \<times> pyval option) list"

datatype entry = Entry (entry_hosts: "string list option")
                       (entry_hostvars: "(string \<times> vars) list option")

type_synonym snapshot = "(string \<times> entry) list"

text \<open>
  The inventory object belongs to the orchestration host.  It is modelled as the record of
  what its primitives were told: the groups, the hosts with their variables, and the
  (group, child) links.
\<close>

record inventory =
  inv_groups :: "string list"
  inv_hosts :: "(string \<times> vars) list"
  inv_children :: "(string \<times> string) list"

definition add_group :: "string \<Rightarrow> inventory \<Rightarrow> inventory" where
  "add_group g i =
     (if g \<in> set (inv_groups i) then i else i\<lparr>inv_groups := inv_groups i @ [g]\<rparr>)"

definition add_host :: "string \<Rightarrow> inventory \<Rightarrow> inventory" where
  "add_host h i = (if has_key h (inv_hosts i) then i else i\<lparr>inv_hosts := inv_hosts i @ [(h, [])]\<rparr>)"

definition add_child :: "string \<Rightarrow> string \<Rightarrow> inventory \<Rightarrow> inventory" where
  "add_child g c i = i\<lparr>inv_children := inv_children i @ [(g, c)]\<rparr>"

definition set_variable :: "string \<Rightarrow> string \<Rightarrow> pyval option \<Rightarrow> inventory \<Rightarrow> inventory" where
  "set_variable h k v i = i\<lparr>inv_hosts := AList.map_entry h (AList.update k v) (inv_hosts i)\<rparr>"

text \<open>\<^verbatim>\<open>get_host\<close> yields the host object, here its name and variables.\<close>

definition get_host :: "string \<Rightarrow> inventory \<Rightarrow> (string \<times> vars) option" where
  "get_host h i = map_option (\<lambda>vs. (h, vs)) (map_of (inv_hosts i) h)"

text \<open>\<^verbatim>\<open>BaseInventoryPlugin._populate_host_vars(hosts, variables, group)\<close>.\<close>

definition populate_host_vars :: "string list \<Rightarrow> vars \<Rightarrow> string \<Rightarrow> inventory \<Rightarrow> inventory" where
  "populate_host_vars hosts variables grp i =
     fold (\<lambda>host i. fold (\<lambda>kv. set_variable host (fst kv) (snd kv)) variables
                       (add_child grp host (add_host host i)))
       hosts i"


section \<open>Cache replay: \<^verbatim>\<open>InventoryModule._populate_from_cache\<close>\<close>

text \<open>
  \<^verbatim>\<open>source_data.pop('_meta', {})\<close> removes the entry from the dict it is given; the model
  returns the dict as the call leaves it, together with the inventory.
\<close>

definition populate_from_cache :: "snapshot \<Rightarrow> inventory \<Rightarrow> snapshot \<times> inventory" where
  "populate_from_cache source_data i =
     (let meta = (case map_of source_data ''_meta'' of None \<Rightarrow> Entry None None | Some e \<Rightarrow> e);
          source_data = AList.delete ''_meta'' source_data;
          hostvars = (case entry_hostvars meta of None \<Rightarrow> [] | Some hv \<Rightarrow> hv)
      in (source_data,
          fold (\<lambda>grp i.
                  if grp = ''all'' then i
                  else
                    let i = add_group grp i;
                        hosts = (case map_of source_data grp of
                                   None \<Rightarrow> []
                                 | Some e \<Rightarrow> (case entry_hosts e of None \<Rightarrow> [] | Some hs \<Rightarrow> hs));
                        i = fold (\<lambda>host. populate_host_vars [host]
                                    (case map_of hostvars host of None \<Rightarrow> [] | Some vs \<Rightarrow> vs) grp)
                              hosts i
                    in add_child ''all'' grp i)
            (map fst source_data) i))"


section \<open>Filter-spec builder: \<^verbatim>\<open>_handle_error\<close> and \<^verbatim>\<open>_get_vm_filter_spec\<close>\<close>

record options =
  opt_datacenters :: "string list option"
  opt_clusters :: "string list option"
  opt_folders :: "string list option"
  opt_esxi_hostsystems :: "string list option"
  opt_resource_pools :: "string list option"
  opt_no_object_failure :: string
  opt_properties :: "string list option"
  with_tags :: bool

text \<open>The fields of \<^verbatim>\<open>VM.FilterSpec\<close> the builder can reach; \<open>None\<close> is an unset field.\<close>

record filter_spec =
  fs_datacenters :: "string set option"
  fs_clusters :: "string set option"
  fs_folders :: "string set option"
  fs_hosts :: "string set option"
  fs_resource_pools :: "string set option"

record vm_config =
  uuid :: string
  guestId :: "string option"

record virtual_machine =
  vm_name :: string
  config :: "vm_config option"
  guest_ipAddress :: "string option"
  powerState :: string
  customValue :: "(int \<times> pyval) list"
  mo_id :: string
  vm_object :: pyval

record tag_model =
  tag_id :: string
  tag_name :: string

text \<open>
  The backend as the plugin queries it: the five \<^verbatim>\<open>list\<close> calls by exact name (each yields the
  references of the matching summaries), the VM listing, the tag service, the tag
  association service and the custom field definitions (key, name).
\<close>

record backend =
  datacenter_list :: "string \<Rightarrow> string list"
  cluster_list :: "string \<Rightarrow> string list"
  folder_list :: "string \<Rightarrow> string list"
  host_list :: "string \<Rightarrow> string list"
  resourcepool_list :: "string \<Rightarrow> string list"
  vm_list :: "filter_spec \<Rightarrow> virtual_machine list"
  tag_list :: "string list"
  tag_get :: "string \<Rightarrow> tag_model"
  list_attached_tags :: "string \<Rightarrow> string list"
  custom_fields :: "(int \<times> string) list"

text \<open>The second component is the list of warnings displayed so far.\<close>

definition handle_error :: "string \<Rightarrow> string \<Rightarrow> string list \<Rightarrow> exc + string list" where
  "handle_error no_object_failure message warnings =
     (if no_object_failure = ''warn'' then Inr (warnings @ [message])
      else if no_object_failure = ''error'' then Inl (AnsibleError message)
      else Inr warnings)"

text \<open>
  The five blocks of \<^verbatim>\<open>_get_vm_filter_spec\<close> run the same loop over the configured names;
  \<open>resolve_names\<close> is that loop (\<open>lst\<close> the backend query, \<open>label\<close> the category's wording in
  the message, \<open>temp\<close> the references collected so far).
\<close>

fun resolve_names ::
  "string \<Rightarrow> (string \<Rightarrow> string list) \<Rightarrow> string \<Rightarrow> string list \<Rightarrow> string list \<Rightarrow> string list
     \<Rightarrow> exc + (string list \<times> string list)" where
  "resolve_names policy lst label [] temp warnings = Inr (temp, warnings)"
| "resolve_names policy lst label (n # ns) temp warnings =
     (case lst n of
        s # summaries \<Rightarrow> resolve_names policy lst label ns (temp @ [s]) warnings
      | [] \<Rightarrow>
          (case handle_error policy (''Unable to find '' @ label @ '' '' @ n) warnings of
             Inl e \<Rightarrow> Inl e
           | Inr warnings' \<Rightarrow> resolve_names policy lst label ns temp warnings'))"

text \<open>
  One block: skipped when the option is unset or empty, otherwise the loop and then the
  assignment \<open>assign\<close> of the collected set to a field of the spec.
\<close>

definition filter_category ::
  "string \<Rightarrow> (string \<Rightarrow> string list) \<Rightarrow> string \<Rightarrow> string list option
     \<Rightarrow> (string set \<Rightarrow> filter_spec \<Rightarrow> filter_spec) \<Rightarrow> filter_spec \<times> string list
     \<Rightarrow> exc + (filter_spec \<times> string list)" where
  "filter_category policy lst label names assign sw =
     (if truthy names then
        (case resolve_names policy lst label (the names) [] (snd sw) of
           Inl e \<Rightarrow> Inl e
         | Inr (temp, warnings) \<Rightarrow> Inr (assign (set temp) (fst sw), warnings))
      else Inr sw)"

definition empty_filter_spec :: filter_spec where
  "empty_filter_spec = \<lparr>fs_datacenters = None, fs_clusters = None, fs_folders = None,
     fs_hosts = None, fs_resource_pools = None\<rparr>"

text \<open>
  The blocks in source order.  The host-system block and the resource-pool block both end
  in \<^verbatim>\<open>vm_filter_spec.folders = set(...)\<close>, as the source has it.
\<close>

definition get_vm_filter_spec :: "options \<Rightarrow> backend \<Rightarrow> exc + (filter_spec \<times> string list)" where
  "get_vm_filter_spec opts be =
     (let policy = opt_no_object_failure opts in
      case filter_category policy (datacenter_list be) ''datacenter'' (opt_datacenters opts)
             (\<lambda>s spec. spec\<lparr>fs_datacenters := Some s\<rparr>) (empty_filter_spec, []) of
        Inl e \<Rightarrow> Inl e
      | Inr sw1 \<Rightarrow>
      (case filter_category policy (cluster_list be) ''cluster'' (opt_clusters opts)
             (\<lambda>s spec. spec\<lparr>fs_clusters := Some s\<rparr>) sw1 of
        Inl e \<Rightarrow> Inl e
      | Inr sw2 \<Rightarrow>
      (case filter_category policy (folder_list be) ''folder'' (opt_folders opts)
             (\<lambda>s spec. spec\<lparr>fs_folders := Some s\<rparr>) sw2 of
        Inl e \<Rightarrow> Inl e
      | Inr sw3 \<Rightarrow>
      (case filter_category policy (host_list be) ''esxi hostsystem'' (opt_esxi_hostsystems opts)
             (\<lambda>s spec. spec\<lparr>fs_folders := Some s\<rparr>) sw3 of
        Inl e \<Rightarrow> Inl e
      | Inr sw4 \<Rightarrow>
        filter_category policy (resourcepool_list be) ''resource pool'' (opt_resource_pools opts)
             (\<lambda>s spec. spec\<lparr>fs_folders := Some s\<rparr>) sw4))))"

text \<open>
  The configured names in the order the builder meets them, each with its category's
  wording and the backend's answer; used to state what the builder does with them.
\<close>

definition category_names ::
  "string \<Rightarrow> (string \<Rightarrow> string list) \<Rightarrow> string list option
     \<Rightarrow> (string \<times> string \<times> string list) list" where
  "category_names label lst names =
     (if truthy names then map (\<lambda>n. (label, n, lst n)) (the names) else [])"

definition configured_names :: "options \<Rightarrow> backend \<Rightarrow> (string \<times> string \<times> string list) list" where
  "configured_names opts be =
     category_names ''datacenter'' (datacenter_list be) (opt_datacenters opts)
     @ category_names ''cluster'' (cluster_list be) (opt_clusters opts)
     @ category_names ''folder'' (folder_list be) (opt_folders opts)
     @ category_names ''esxi hostsystem'' (host_list be) (opt_esxi_hostsystems opts)
     @ category_names ''resource pool'' (resourcepool_list be) (opt_resource_pools opts)"

definition unresolved :: "options \<Rightarrow> backend \<Rightarrow> (string \<times> string \<times> string list) list" where
  "unresolved opts be = [x \<leftarrow> configured_names opts be. snd (snd x) = []]"




section \<open>Host properties: \<^verbatim>\<open>InventoryModule._populate_host_properties\<close>\<close>

text \<open>
  The inner loop over \<^verbatim>\<open>vm_obj.customValue\<close>: the variable's name is the first element of the
  list of field definitions with the value's key, and indexing an empty list raises
  \<^verbatim>\<open>IndexError\<close>.
\<close>

fun set_custom_values ::
  "(int \<times> string) list \<Rightarrow> string \<Rightarrow> (int \<times> pyval) list \<Rightarrow> inventory \<Rightarrow> exc + inventory" where
  "set_custom_values field_mgr current_host [] i = Inr i"
| "set_custom_values field_mgr current_host (cust_value # cust_values) i =
     (case map snd [y \<leftarrow> field_mgr. fst y = fst cust_value] of
        [] \<Rightarrow> Inl IndexError
      | name # names \<Rightarrow>
          set_custom_values field_mgr current_host cust_values
            (set_variable current_host name (Some (snd cust_value)) i))"

fun populate_properties ::
  "(string \<times> attr) list \<Rightarrow> (int \<times> string) list \<Rightarrow> virtual_machine \<Rightarrow> string \<Rightarrow> string list
     \<Rightarrow> inventory \<Rightarrow> exc + inventory" where
  "populate_properties da field_mgr vm_obj current_host [] i = Inr i"
| "populate_properties da field_mgr vm_obj current_host (vm_prop # vm_properties) i =
     (if vm_prop = ''customValue'' then
        (case set_custom_values field_mgr current_host (customValue vm_obj) i of
           Inl e \<Rightarrow> Inl e
         | Inr i' \<Rightarrow> populate_properties da field_mgr vm_obj current_host vm_properties i')
      else
        (case get_object_prop da (vm_object vm_obj) (split_on CHR ''.'' vm_prop) of
           Inl e \<Rightarrow> Inl e
         | Inr vm_value \<Rightarrow>
             populate_properties da field_mgr vm_obj current_host vm_properties
               (set_variable current_host vm_prop vm_value i)))"

definition populate_host_properties ::
  "(string \<times> attr) list \<Rightarrow> options \<Rightarrow> backend \<Rightarrow> virtual_machine \<Rightarrow> string
     \<Rightarrow> inventory \<Rightarrow> exc + inventory" where
  "populate_host_properties da opts be vm_obj current_host i =
     (let vm_properties = (case opt_properties opts of None \<Rightarrow> [] | Some ps \<Rightarrow> ps);
          field_mgr = custom_fields be
      in populate_properties da field_mgr vm_obj current_host vm_properties i)"


section \<open>Live enumeration: \<^verbatim>\<open>InventoryModule._populate_from_source\<close>\<close>

record run_state =
  cacheable_results :: snapshot
  hostvars :: "(string \<times> vars) list"
  inv :: inventory

text \<open>\<^verbatim>\<open>cacheable_results[group]['hosts'].append(host)\<close>; either subscript can raise.\<close>

definition append_host :: "string \<Rightarrow> string \<Rightarrow> snapshot \<Rightarrow> exc + snapshot" where
  "append_host grp host res =
     (case map_of res grp of
        None \<Rightarrow> Inl KeyError
      | Some e \<Rightarrow>
          (case entry_hosts e of
             None \<Rightarrow> Inl KeyError
           | Some hs \<Rightarrow> Inr (AList.update grp (Entry (Some (hs @ [host])) (entry_hostvars e)) res)))"

text \<open>The loop over all tags before the VMs are visited.\<close>

fun load_tags ::
  "backend \<Rightarrow> string list \<Rightarrow> (string \<times> string) list \<times> snapshot \<times> inventory
     \<Rightarrow> (string \<times> string) list \<times> snapshot \<times> inventory" where
  "load_tags be [] s = s"
| "load_tags be (tag # tags) (tags_info, res, i) =
     (let tag_obj = tag_get be tag;
          tags_info = AList.update (tag_id tag_obj) (tag_name tag_obj) tags_info
      in if \<not> has_key (tag_name tag_obj) res then
           load_tags be tags
             (tags_info, AList.update (tag_name tag_obj) (Entry (Some []) None) res,
              add_group (tag_name tag_obj) i)
         else load_tags be tags (tags_info, res, i))"

text \<open>The loop over the tags attached to one VM.\<close>

fun attach_tags ::
  "(string \<times> string) list \<Rightarrow> string \<Rightarrow> string list \<Rightarrow> snapshot \<times> inventory
     \<Rightarrow> exc + (snapshot \<times> inventory)" where
  "attach_tags tags_info current_host [] s = Inr s"
| "attach_tags tags_info current_host (t # ts) (res, i) =
     (case map_of tags_info t of
        None \<Rightarrow> Inl KeyError
      | Some name \<Rightarrow>
          (case append_host name current_host res of
             Inl e \<Rightarrow> Inl e
           | Inr res' \<Rightarrow> attach_tags tags_info current_host ts (res', add_child name current_host i)))"

definition host_key :: "virtual_machine \<Rightarrow> vm_config \<Rightarrow> string" where
  "host_key vm_obj cfg = vm_name vm_obj @ ''_'' @ uuid cfg"

text \<open>\<^verbatim>\<open>if name not in cacheable_results: cacheable_results[name] = {'hosts': []}; add_group(name)\<close>.\<close>

definition ensure_group :: "string \<Rightarrow> snapshot \<times> inventory \<Rightarrow> snapshot \<times> inventory" where
  "ensure_group name s =
     (if \<not> has_key name (fst s)
      then (AList.update name (Entry (Some []) None) (fst s), add_group name (snd s))
      else s)"

text \<open>
  The body of the loop over the VMs.  The guest-id block creates the group under the test
  \<^verbatim>\<open>vm_guest_id and vm_guest_id not in cacheable_results\<close>, and then subscripts
  \<^verbatim>\<open>cacheable_results[vm_guest_id]\<close> outside that test; \<^verbatim>\<open>None\<close> is never a key.
\<close>

definition process_vm ::
  "(string \<times> attr) list \<Rightarrow> options \<Rightarrow> backend \<Rightarrow> (string \<times> string) list \<Rightarrow> run_state
     \<Rightarrow> virtual_machine \<Rightarrow> exc + run_state" where
  "process_vm da opts be tags_info st vm_obj =
     (case config vm_obj of
        None \<Rightarrow> Inr st
      | Some cfg \<Rightarrow>
          (let current_host = host_key vm_obj cfg in
           if has_key current_host (hostvars st) then Inr st
           else
             (let hv = AList.update current_host [] (hostvars st);
                  i = add_host current_host (inv st);
                  host_ip = guest_ipAddress vm_obj;
                  i = (if truthy host_ip
                       then set_variable current_host ''ansible_host''
                              (Some (Prim (JStr (the host_ip)) [])) i
                       else i)
              in (case populate_host_properties da opts be vm_obj current_host i of
                    Inl e \<Rightarrow> Inl e
                  | Inr i \<Rightarrow>
                     (case (if with_tags opts
                            then attach_tags tags_info current_host
                                   (list_attached_tags be (mo_id vm_obj)) (cacheable_results st, i)
                            else Inr (cacheable_results st, i)) of
                        Inl e \<Rightarrow> Inl e
                      | Inr s \<Rightarrow>
                         (let vm_power = powerState vm_obj;
                              s = ensure_group vm_power s
                          in (case append_host vm_power current_host (fst s) of
                                Inl e \<Rightarrow> Inl e
                              | Inr res \<Rightarrow>
                                 (let i = add_child vm_power current_host (snd s);
                                      vm_guest_id = guestId cfg;
                                      s = (if truthy vm_guest_id
                                           then ensure_group (the vm_guest_id) (res, i)
                                           else (res, i))
                                  in (case vm_guest_id of
                                        None \<Rightarrow> Inl KeyError
                                      | Some g \<Rightarrow>
                                         (case append_host g current_host (fst s) of
                                            Inl e \<Rightarrow> Inl e
                                          | Inr res \<Rightarrow>
                                              Inr \<lparr>cacheable_results = res, hostvars = hv,
                                                   inv = add_child g current_host (snd s)\<rparr>))))))))))"

fun process_vms ::
  "(string \<times> attr) list \<Rightarrow> options \<Rightarrow> backend \<Rightarrow> (string \<times> string) list \<Rightarrow> run_state
     \<Rightarrow> virtual_machine list \<Rightarrow> exc + run_state" where
  "process_vms da opts be tags_info st [] = Inr st"
| "process_vms da opts be tags_info st (ob # objects) =
     (case process_vm da opts be tags_info st ob of
        Inl e \<Rightarrow> Inl e
      | Inr st' \<Rightarrow> process_vms da opts be tags_info st' objects)"

text \<open>
  The closing loop \<^verbatim>\<open>for host in hostvars\<close>: the host object's name and variables go under
  \<^verbatim>\<open>cacheable_results['_meta']['hostvars']\<close>.
\<close>

fun copy_hostvars :: "string list \<Rightarrow> inventory \<Rightarrow> snapshot \<Rightarrow> exc + snapshot" where
  "copy_hostvars [] i res = Inr res"
| "copy_hostvars (host # hosts) i res =
     (case get_host host i of
        None \<Rightarrow> Inl AttributeError
      | Some h \<Rightarrow>
          (case map_of res ''_meta'' of
             None \<Rightarrow> Inl KeyError
           | Some m \<Rightarrow>
               (case entry_hostvars m of
                  None \<Rightarrow> Inl KeyError
                | Some hv \<Rightarrow>
                    copy_hostvars hosts i
                      (AList.update ''_meta''
                         (Entry (entry_hosts m) (Some (AList.update (fst h) (snd h) hv))) res))))"

text \<open>
  The result is the returned mapping, the inventory and the warnings displayed.  On the
  cache branch \<open>source_data\<close> is the dict read from the cache (\<open>None\<close> has no \<^verbatim>\<open>pop\<close>).
\<close>

definition initial_results :: snapshot where
  "initial_results = [(''_meta'', Entry None (Some []))]"

definition populate_from_source ::
  "(string \<times> attr) list \<Rightarrow> options \<Rightarrow> backend \<Rightarrow> snapshot option \<Rightarrow> bool \<Rightarrow> inventory
     \<Rightarrow> exc + (snapshot \<times> inventory \<times> string list)" where
  "populate_from_source da opts be source_data using_current_cache i =
     (if using_current_cache then
        (case source_data of
           None \<Rightarrow> Inl AttributeError
         | Some sd \<Rightarrow> Inr (fst (populate_from_cache sd i), snd (populate_from_cache sd i), []))
      else
        (case get_vm_filter_spec opts be of
           Inl e \<Rightarrow> Inl e
         | Inr sw \<Rightarrow>
            (let objects = vm_list be (fst sw);
                 t = (if with_tags opts
                      then load_tags be (tag_list be) ([], initial_results, i)
                      else ([], initial_results, i))
             in (case process_vms da opts be (fst t)
                        \<lparr>cacheable_results = fst (snd t), hostvars = [], inv = snd (snd t)\<rparr>
                        objects of
                   Inl e \<Rightarrow> Inl e
                 | Inr st \<Rightarrow>
                    (case copy_hostvars (map fst (hostvars st)) (inv st) (cacheable_results st) of
                       Inl e \<Rightarrow> Inl e
                     | Inr res \<Rightarrow> Inr (res, inv st, snd sw))))))"

text \<open>Every member of every group of a snapshot is one of the host keys \<open>K\<close>.\<close>

definition members_known :: "snapshot \<Rightarrow> string set \<Rightarrow> bool" where
  "members_known res K =
     (\<forall>g e hs. map_of res g = Some e \<longrightarrow> entry_hosts e = Some hs \<longrightarrow> set hs \<subseteq> K)"



section \<open>Concrete inputs\<close>

definition no_inventory :: inventory where
  "no_inventory = \<lparr>inv_groups = [], inv_hosts = [], inv_children = []\<rparr>"

definition no_options :: options where
  "no_options = \<lparr>opt_datacenters = None, opt_clusters = None, opt_folders = None,
     opt_esxi_hostsystems = None, opt_resource_pools = None,
     opt_no_object_failure = ''silent'', opt_properties = None, with_tags = False\<rparr>"

text \<open>A backend with one folder \<^verbatim>\<open>dev\<close>, one ESXi host \<^verbatim>\<open>esx1\<close>, and nothing else.\<close>

definition small_backend :: backend where
  "small_backend = \<lparr>
     datacenter_list = (\<lambda>n. []),
     cluster_list = (\<lambda>n. []),
     folder_list = (\<lambda>n. if n = ''dev'' then [''group-v3''] else []),
     host_list = (\<lambda>n. if n = ''esx1'' then [''host-9''] else []),
     resourcepool_list = (\<lambda>n. []),
     vm_list = (\<lambda>spec. []),
     tag_list = [],
     tag_get = (\<lambda>t. \<lparr>tag_id = t, tag_name = t\<rparr>),
     list_attached_tags = (\<lambda>m. []),
     custom_fields = []\<rparr>"

text \<open>
  A VM object whose \<^verbatim>\<open>config\<close> is a backend data object with a nested \<^verbatim>\<open>hardware\<close> object,
  whose \<^verbatim>\<open>name\<close> is a string and whose \<^verbatim>\<open>runtime\<close> cannot be read for lack of permission.
\<close>

definition hardware_object :: pyval where
  "hardware_object = Obj False [(''numCPU'', Val (Prim (JInt 2) []))]"

definition config_object :: pyval where
  "config_object = Obj False
     [(''Array'', Val (Obj False [])),
      (''hardware'', Val hardware_object),
      (''instanceUuid'', Val (Prim (JStr ''u1'') []))]"

definition web1_object :: pyval where
  "web1_object = Obj False
     [(''config'', Val config_object),
      (''name'', Val (Prim (JStr ''web1'') [])),
      (''runtime'', Raise NoPermission)]"

definition web1 :: virtual_machine where
  "web1 = \<lparr>vm_name = ''web1'', config = Some \<lparr>uuid = ''u1'', guestId = Some ''otherLinux64Guest''\<rparr>,
     guest_ipAddress = Some ''10.0.0.5'', powerState = ''poweredOn'', customValue = [],
     mo_id = ''vm-1'', vm_object = web1_object\<rparr>"

definition web2 :: virtual_machine where
  "web2 = \<lparr>vm_name = ''web2'', config = Some \<lparr>uuid = ''u2'', guestId = Some ''windows9Server64Guest''\<rparr>,
     guest_ipAddress = None, powerState = ''poweredOff'', customValue = [],
     mo_id = ''vm-2'', vm_object = Obj False [(''name'', Val (Prim (JStr ''web2'') []))]\<rparr>"


text \<open>A VM whose guest OS id is absent.\<close>

definition web3 :: virtual_machine where
  "web3 = \<lparr>vm_name = ''web3'', config = Some \<lparr>uuid = ''u3'', guestId = None\<rparr>,
     guest_ipAddress = None, powerState = ''poweredOn'', customValue = [],
     mo_id = ''vm-3'', vm_object = Obj False [(''name'', Val (Prim (JStr ''web3'') []))]\<rparr>"

text \<open>A VM with a custom value whose key 101 has no field definition.\<close>

definition web4 :: virtual_machine where
  "web4 = \<lparr>vm_name = ''web4'', config = Some \<lparr>uuid = ''u4'', guestId = Some ''otherLinux64Guest''\<rparr>,
     guest_ipAddress = None, powerState = ''poweredOn'',
     customValue = [(101, Prim (JStr ''blue'') [])],
     mo_id = ''vm-4'', vm_object = Obj False [(''name'', Val (Prim (JStr ''web4'') []))]\<rparr>"

definition custom_options :: options where
  "custom_options = no_options\<lparr>opt_properties := Some [''name'', ''customValue'']\<rparr>"



definition two_vm_backend :: backend where
  "two_vm_backend = small_backend\<lparr>vm_list := (\<lambda>spec. [web1, web2, web1])\<rparr>"

definition start_state :: run_state where
  "start_state = \<lparr>cacheable_results = initial_results, hostvars = [], inv = no_inventory\<rparr>"


definition cached_snapshot :: snapshot where
  "cached_snapshot =
     [(''_meta'', Entry None (Some [(''web1_u1'',
                                     [(''ansible_host'', Some (Prim (JStr ''10.0.0.5'') []))])])),
      (''poweredOn'', Entry (Some [''web1_u1'']) None)]"


section \<open>Properties of the flattener\<close>












subsection \<open>The order of the keys\<close>








section \<open>Properties of the filter-spec builder\<close>












lemma unresolved_vm_list [simp]: "unresolved opts (be\<lparr>vm_list := f\<rparr>) = unresolved opts be"
  by (simp add: unresolved_def configured_names_def)

lemma get_vm_filter_spec_vm_list [simp]:
  "get_vm_filter_spec opts (be\<lparr>vm_list := f\<rparr>) = get_vm_filter_spec opts be"
  by (simp add: get_vm_filter_spec_def Let_def cong: sum.case_cong)


section \<open>Properties of the live enumeration\<close>

subsection \<open>The inventory's hosts\<close>

lemma inv_hosts_add_group [simp]: "inv_hosts (add_group g i) = inv_hosts i"
  by (simp add: add_group_def)

lemma inv_hosts_add_child [simp]: "inv_hosts (add_child g c i) = inv_hosts i"
  by (simp add: add_child_def)

lemma has_key_add_host [simp]: "has_key h (inv_hosts (add_host h i))"
  by (simp add: add_host_def has_key_def)

lemma has_key_set_variable [simp]:
  "has_key h (inv_hosts (set_variable h' k v i)) = has_key h (inv_hosts i)"
  by (simp add: set_variable_def has_key_def dom_map_entry)




lemma inv_hosts_ensure_group [simp]: "inv_hosts (snd (ensure_group n s)) = inv_hosts (snd s)"
  by (simp add: ensure_group_def)

subsection \<open>Group members are known host keys\<close>

lemma members_known_mono: "members_known res K \<Longrightarrow> K \<subseteq> K' \<Longrightarrow> members_known res K'"
  unfolding members_known_def by blast

lemma members_known_initial: "members_known initial_results K"
  by (simp add: members_known_def initial_results_def)

lemma members_known_new_group:
  "members_known res K \<Longrightarrow> members_known (AList.update n (Entry (Some []) None) res) K"
  unfolding members_known_def by (auto simp add: update_conv')

lemma members_known_ensure_group:
  "members_known (fst s) K \<Longrightarrow> members_known (fst (ensure_group n s)) K"
  by (simp add: ensure_group_def members_known_new_group)

lemma members_known_append_host:
  assumes "append_host g h res = Inr res'" and "members_known res K" and "h \<in> K"
  shows "members_known res' K"
proof -
  from assms(1) obtain e hs where e: "map_of res g = Some e" "entry_hosts e = Some hs"
    and r: "res' = AList.update g (Entry (Some (hs @ [h])) (entry_hostvars e)) res"
    by (auto simp add: append_host_def split: option.splits)
  from assms(2) e have "set hs \<subseteq> K" unfolding members_known_def by blast
  with assms(2,3) show ?thesis
    unfolding members_known_def r by (auto simp add: update_conv')
qed

lemma members_known_attach_tags:
  "attach_tags ti h ts (res, i) = Inr (res', i') \<Longrightarrow> members_known res K \<Longrightarrow> h \<in> K
     \<Longrightarrow> members_known res' K"
proof (induction ts arbitrary: res i)
  case Nil
  then show ?case by simp
next
  case (Cons t ts)
  from Cons.prems(1) obtain name res1 where
    a: "append_host name h res = Inr res1"
    and b: "attach_tags ti h ts (res1, add_child name h i) = Inr (res', i')"
    by (auto split: option.splits sum.splits)
  from members_known_append_host [OF a Cons.prems(2,3)] have "members_known res1 K" .
  from Cons.IH [OF b this Cons.prems(3)] show ?case .
qed

lemma members_known_load_tags:
  "members_known res K \<Longrightarrow> members_known (fst (snd (load_tags be tags (ti, res, i)))) K"
proof (induction tags arbitrary: ti res i)
  case Nil
  then show ?case by simp
next
  case (Cons t tags)
  then show ?case by (simp add: Let_def members_known_new_group)
qed

text \<open>
  What a successful visit of a VM with a new key yields: the key is recorded, the host is in
  the inventory, and the snapshot was built by the steps of the source.
\<close>

lemma process_vm_new:
  assumes "process_vm da opts be ti st vm = Inr st'" and "config vm = Some c"
    and "\<not> has_key (host_key vm c) (hostvars st)"
  shows "\<exists>i1 s1 res2 g res3.
      populate_host_properties da opts be vm (host_key vm c)
        (if truthy (guest_ipAddress vm)
         then set_variable (host_key vm c) ''ansible_host''
                (Some (Prim (JStr (the (guest_ipAddress vm))) [])) (add_host (host_key vm c) (inv st))
         else add_host (host_key vm c) (inv st)) = Inr i1
    \<and> (if with_tags opts
        then attach_tags ti (host_key vm c) (list_attached_tags be (mo_id vm)) (cacheable_results st, i1)
        else Inr (cacheable_results st, i1)) = Inr s1
    \<and> append_host (powerState vm) (host_key vm c) (fst (ensure_group (powerState vm) s1)) = Inr res2
    \<and> guestId c = Some g
    \<and> append_host g (host_key vm c)
         (fst (if truthy (guestId c)
               then ensure_group g (res2, add_child (powerState vm) (host_key vm c)
                                            (snd (ensure_group (powerState vm) s1)))
               else (res2, add_child (powerState vm) (host_key vm c)
                             (snd (ensure_group (powerState vm) s1))))) = Inr res3
    \<and> st' = \<lparr>cacheable_results = res3,
             hostvars = AList.update (host_key vm c) [] (hostvars st),
             inv = add_child g (host_key vm c)
                     (snd (if truthy (guestId c)
                           then ensure_group g (res2, add_child (powerState vm) (host_key vm c)
                                                        (snd (ensure_group (powerState vm) s1)))
                           else (res2, add_child (powerState vm) (host_key vm c)
                                         (snd (ensure_group (powerState vm) s1)))))\<rparr>"
  using assms
  by (auto simp add: process_vm_def Let_def split: sum.splits option.splits if_splits)


lemma process_vm_skip:
  "config vm = None \<Longrightarrow> process_vm da opts be ti st vm = Inr st"
  by (simp add: process_vm_def)

lemma process_vm_seen:
  "config vm = Some c \<Longrightarrow> has_key (host_key vm c) (hostvars st)
     \<Longrightarrow> process_vm da opts be ti st vm = Inr st"
  by (simp add: process_vm_def Let_def)

lemma process_vm_hostvars:
  assumes "process_vm da opts be ti st vm = Inr st'"
  shows "fst ` set (hostvars st') =
     (case config vm of None \<Rightarrow> fst ` set (hostvars st)
      | Some c \<Rightarrow> insert (host_key vm c) (fst ` set (hostvars st)))"
proof (cases "config vm")
  case None
  with assms show ?thesis by (simp add: process_vm_skip)
next
  case (Some c)
  show ?thesis
  proof (cases "has_key (host_key vm c) (hostvars st)")
    case True
    with Some assms have "st' = st" by (simp add: process_vm_seen)
    with Some True show ?thesis by (auto simp add: has_key_def)
  next
    case False
    from process_vm_new [OF assms Some False]
    have "hostvars st' = AList.update (host_key vm c) [] (hostvars st)" by auto
    then have "fst ` set (hostvars st') = {host_key vm c} \<union> fst ` set (hostvars st)"
      by (simp only: dom_update)
    with Some show ?thesis by simp
  qed
qed

lemma process_vm_records_key:
  assumes "process_vm da opts be ti st vm = Inr st'" and "config vm = Some c"
  shows "has_key (host_key vm c) (hostvars st')"
  using process_vm_hostvars [OF assms(1)] assms(2) by (simp add: has_key_def)


lemma process_vm_known:
  assumes "process_vm da opts be ti st vm = Inr st'"
    and "members_known (cacheable_results st) (fst ` set (hostvars st))"
  shows "members_known (cacheable_results st') (fst ` set (hostvars st'))"
proof (cases "config vm")
  case None
  with assms show ?thesis by (simp add: process_vm_skip)
next
  case (Some c)
  show ?thesis
  proof (cases "has_key (host_key vm c) (hostvars st)")
    case True
    with Some assms show ?thesis by (simp add: process_vm_seen)
  next
    case False
    let ?h = "host_key vm c"
    let ?K = "fst ` set (hostvars st')"
    from process_vm_new [OF assms(1) Some False] obtain i1 s1 res2 g res3 where
      tags: "(if with_tags opts
              then attach_tags ti ?h (list_attached_tags be (mo_id vm)) (cacheable_results st, i1)
              else Inr (cacheable_results st, i1)) = Inr s1"
      and power: "append_host (powerState vm) ?h (fst (ensure_group (powerState vm) s1)) = Inr res2"
      and gid: "guestId c = Some g"
      and guest: "append_host g ?h
         (fst (if truthy (guestId c)
               then ensure_group g (res2, add_child (powerState vm) ?h
                                            (snd (ensure_group (powerState vm) s1)))
               else (res2, add_child (powerState vm) ?h
                             (snd (ensure_group (powerState vm) s1))))) = Inr res3"
      and res: "cacheable_results st' = res3"
      by auto
    have hK: "?h \<in> ?K"
      using process_vm_records_key [OF assms(1) Some] by (simp add: has_key_def)
    have sub: "fst ` set (hostvars st) \<subseteq> ?K"
      using process_vm_hostvars [OF assms(1)] Some by auto
    have k0: "members_known (cacheable_results st) ?K"
      by (rule members_known_mono [OF assms(2) sub])
    have k1: "members_known (fst s1) ?K"
    proof (cases "with_tags opts")
      case True
      with tags have "attach_tags ti ?h (list_attached_tags be (mo_id vm))
          (cacheable_results st, i1) = Inr (fst s1, snd s1)" by simp
      from members_known_attach_tags [OF this k0 hK] show ?thesis .
    next
      case False
      with tags k0 show ?thesis by auto
    qed
    have k2: "members_known res2 ?K"
      by (rule members_known_append_host [OF power members_known_ensure_group [OF k1] hK])
    have "members_known (fst (if truthy (guestId c)
               then ensure_group g (res2, add_child (powerState vm) ?h
                                            (snd (ensure_group (powerState vm) s1)))
               else (res2, add_child (powerState vm) ?h
                             (snd (ensure_group (powerState vm) s1))))) ?K"
      using k2 by (simp add: members_known_ensure_group)
    from members_known_append_host [OF guest this hK] res show ?thesis by simp
  qed
qed

lemma process_vms_known:
  "process_vms da opts be ti st objects = Inr st'
     \<Longrightarrow> members_known (cacheable_results st) (fst ` set (hostvars st))
     \<Longrightarrow> members_known (cacheable_results st') (fst ` set (hostvars st'))"
proof (induction objects arbitrary: st)
  case Nil
  then show ?case by simp
next
  case (Cons ob objects)
  from Cons.prems(1) obtain st1 where
    1: "process_vm da opts be ti st ob = Inr st1"
    and 2: "process_vms da opts be ti st1 objects = Inr st'"
    by (auto split: sum.splits)
  from Cons.IH [OF 2 process_vm_known [OF 1 Cons.prems(2)]] show ?case .
qed



subsection \<open>The closing loop\<close>

lemma copy_hostvars_groups:
  "copy_hostvars hosts i res = Inr res' \<Longrightarrow> map_of res' g = Some e'
     \<Longrightarrow> \<exists>e. map_of res g = Some e \<and> entry_hosts e = entry_hosts e'"
proof (induction hosts arbitrary: res)
  case Nil
  then show ?case by simp
next
  case (Cons host hosts)
  from Cons.prems(1) obtain h m hv where
    m: "map_of res ''_meta'' = Some m"
    and c: "copy_hostvars hosts i
              (AList.update ''_meta'' (Entry (entry_hosts m) (Some (AList.update (fst h) (snd h) hv))) res)
            = Inr res'"
    by (auto split: option.splits)
  from Cons.IH [OF c Cons.prems(2)] obtain e1 where
    e1: "map_of (AList.update ''_meta'' (Entry (entry_hosts m) (Some (AList.update (fst h) (snd h) hv))) res) g
           = Some e1"
    and h1: "entry_hosts e1 = entry_hosts e'"
    by blast
  show ?case
  proof (cases "g = ''_meta''")
    case True
    with e1 h1 m show ?thesis by (auto simp add: update_conv')
  next
    case False
    with e1 h1 show ?thesis by (auto simp add: update_conv')
  qed
qed

lemma copy_hostvars_keeps:
  "copy_hostvars hosts i res = Inr res' \<Longrightarrow> map_of res ''_meta'' = Some m
     \<Longrightarrow> entry_hostvars m = Some hv \<Longrightarrow> has_key h hv
     \<Longrightarrow> \<exists>m' hv'. map_of res' ''_meta'' = Some m' \<and> entry_hostvars m' = Some hv' \<and> has_key h hv'"
proof (induction hosts arbitrary: res m hv)
  case Nil
  then show ?case by auto
next
  case (Cons host hosts)
  from Cons.prems(1,2,3) obtain ho where
    c: "copy_hostvars hosts i
          (AList.update ''_meta'' (Entry (entry_hosts m) (Some (AList.update (fst ho) (snd ho) hv))) res)
        = Inr res'"
    by (auto split: option.splits)
  have "has_key h (AList.update (fst ho) (snd ho) hv)"
    using Cons.prems(4) by (simp add: has_key_def dom_update)
  with Cons.IH [OF c, of "Entry (entry_hosts m) (Some (AList.update (fst ho) (snd ho) hv))"
      "AList.update (fst ho) (snd ho) hv"]
  show ?case by (simp add: update_conv')
qed

lemma copy_hostvars_covers:
  "copy_hostvars hosts i res = Inr res' \<Longrightarrow> h \<in> set hosts
     \<Longrightarrow> \<exists>m hv. map_of res' ''_meta'' = Some m \<and> entry_hostvars m = Some hv \<and> has_key h hv"
proof (induction hosts arbitrary: res)
  case Nil
  then show ?case by simp
next
  case (Cons host hosts)
  from Cons.prems(1) obtain vs m hv where
    g: "get_host host i = Some (host, vs)"
    and c: "copy_hostvars hosts i
              (AList.update ''_meta'' (Entry (entry_hosts m) (Some (AList.update host vs hv))) res)
            = Inr res'"
    by (auto simp add: get_host_def split: option.splits)
  show ?case
  proof (cases "h = host")
    case True
    have "has_key h (AList.update host vs hv)"
      using True by (simp add: has_key_def dom_update)
    with copy_hostvars_keeps [OF c, of "Entry (entry_hosts m) (Some (AList.update host vs hv))"
        "AList.update host vs hv" h]
    show ?thesis by (simp add: update_conv')
  next
    case False
    with Cons.prems(2) have "h \<in> set hosts" by simp
    from Cons.IH [OF c this] show ?thesis .
  qed
qed

subsection \<open>The custom-value expansion\<close>

lemma lookup_field_empty:
  "map snd [y \<leftarrow> fm. fst y = k] = [] \<longleftrightarrow> \<not> has_key k fm"
  by (auto simp add: has_key_def filter_empty_conv)

lemma set_custom_values_missing:
  "cv \<in> set cvs \<Longrightarrow> \<not> has_key (fst cv) fm \<Longrightarrow> set_custom_values fm h cvs i = Inl IndexError"
proof (induction cvs arbitrary: i)
  case Nil
  then show ?case by simp
next
  case (Cons c cvs)
  show ?case
  proof (cases "map snd [y \<leftarrow> fm. fst y = fst c]")
    case Nil
    then show ?thesis by simp
  next
    case found: (Cons name names)
    then have "has_key (fst c) fm"
      using lookup_field_empty [where fm = fm and k = "fst c"] by auto
    with Cons.prems have "cv \<in> set cvs" by auto
    from Cons.IH [OF this Cons.prems(2)] found show ?thesis by simp
  qed
qed

lemma populate_properties_missing:
  "''customValue'' \<in> set props \<Longrightarrow> cv \<in> set (customValue vm) \<Longrightarrow> \<not> has_key (fst cv) fm
     \<Longrightarrow> \<exists>e. populate_properties da fm vm h props i = Inl e"
proof (induction props arbitrary: i)
  case Nil
  then show ?case by simp
next
  case (Cons p props)
  show ?case
  proof (cases "p = ''customValue''")
    case True
    with set_custom_values_missing [OF Cons.prems(2,3)] show ?thesis by simp
  next
    case False
    with Cons.prems(1) have "''customValue'' \<in> set props" by simp
    from Cons.IH [OF this Cons.prems(2,3)] False show ?thesis
      by (auto split: sum.splits)
  qed
qed

lemma populate_properties_index_error:
  "''customValue'' \<in> set props \<Longrightarrow> cv \<in> set (customValue vm) \<Longrightarrow> \<not> has_key (fst cv) fm
     \<Longrightarrow> list_all (\<lambda>p. \<not> isl (get_object_prop da (vm_object vm) (split_on CHR ''.'' p)))
           (takeWhile (\<lambda>p. p \<noteq> ''customValue'') props)
     \<Longrightarrow> populate_properties da fm vm h props i = Inl IndexError"
proof (induction props arbitrary: i)
  case Nil
  then show ?case by simp
next
  case (Cons p props)
  show ?case
  proof (cases "p = ''customValue''")
    case True
    with set_custom_values_missing [OF Cons.prems(2,3)] show ?thesis by simp
  next
    case False
    with Cons.prems(1) have 1: "''customValue'' \<in> set props" by simp
    from False Cons.prems(4) have 2: "list_all (\<lambda>p. \<not> isl (get_object_prop da (vm_object vm) (split_on CHR ''.'' p)))
           (takeWhile (\<lambda>p. p \<noteq> ''customValue'') props)"
      and 3: "\<not> isl (get_object_prop da (vm_object vm) (split_on CHR ''.'' p))" by simp_all
    from 3 obtain r where "get_object_prop da (vm_object vm) (split_on CHR ''.'' p) = Inr r"
      by (cases "get_object_prop da (vm_object vm) (split_on CHR ''.'' p)") auto
    with Cons.IH [OF 1 Cons.prems(2,3) 2] False show ?thesis by simp
  qed
qed

lemma process_vm_property_failure:
  assumes "config vm = Some c" and "\<not> has_key (host_key vm c) (hostvars st)"
    and "\<And>i. \<exists>e. populate_host_properties da opts be vm (host_key vm c) i = Inl e"
  shows "\<exists>e. process_vm da opts be ti st vm = Inl e"
proof -
  let ?i = "if truthy (guest_ipAddress vm)
            then set_variable (host_key vm c) ''ansible_host''
                   (Some (Prim (JStr (the (guest_ipAddress vm))) [])) (add_host (host_key vm c) (inv st))
            else add_host (host_key vm c) (inv st)"
  from assms(3) [of ?i] obtain e where
    "populate_host_properties da opts be vm (host_key vm c) ?i = Inl e" by blast
  with assms(1,2) have "process_vm da opts be ti st vm = Inl e"
    by (simp add: process_vm_def Let_def)
  then show ?thesis by blast
qed


subsection \<open>Duplicate keys\<close>





section \<open>Claims about the flattener and the getter\<close>












section \<open>Claims about the filter-spec builder\<close>

text \<open>
  C1.  With a folder name and a host-system name configured, both resolved by the backend,
  the builder returns a spec whose folder dimension holds the host reference only; the folder
  reference is lost and the host dimension is unset.
\<close>

theorem host_filter_overwrites_folders:
  "get_vm_filter_spec
     (no_options\<lparr>opt_folders := Some [''dev''], opt_esxi_hostsystems := Some [''esx1'']\<rparr>)
     small_backend
   = Inr (\<lparr>fs_datacenters = None, fs_clusters = None, fs_folders = Some {''host-9''},
           fs_hosts = None, fs_resource_pools = None\<rparr>, [])"
  by (simp add: get_vm_filter_spec_def filter_category_def truthy_def no_options_def
        small_backend_def empty_filter_spec_def handle_error_def)





section \<open>Claims about the run\<close>

text \<open>
  C2.  A VM with a configuration section, a key not seen before and no guest OS id: the visit
  raises \<^verbatim>\<open>KeyError\<close> at \<^verbatim>\<open>cacheable_results[vm_guest_id]\<close>, and so does the run that lists it.
\<close>

theorem absent_guest_id_raises:
  "process_vm py_dict_attrs no_options small_backend [] start_state web3 = Inl KeyError
   \<and> populate_from_source py_dict_attrs no_options (small_backend\<lparr>vm_list := (\<lambda>spec. [web3])\<rparr>)
        None False no_inventory = Inl KeyError"
  by code_simp

text \<open>
  C5 (as the code has it).  On a cache hit the run returns the snapshot it was given with the
  \<^verbatim>\<open>_meta\<close> entry removed: the other entries are returned in their order and unchanged, and no
  warning is displayed.
\<close>

theorem cache_replay_returns_snapshot_without_meta:
  "\<exists>i'. populate_from_source da opts be (Some sd) True i
           = Inr ([kv \<leftarrow> sd. fst kv \<noteq> ''_meta''], i', [])
        \<and> map_of [kv \<leftarrow> sd. fst kv \<noteq> ''_meta''] = (map_of sd)(''_meta'' := None)"
proof -
  have d: "AList.delete ''_meta'' sd = [kv \<leftarrow> sd. fst kv \<noteq> ''_meta'']"
    by (simp add: AList.delete_eq split_def conj_commute eq_commute [of "''_meta''"])
  have "populate_from_source da opts be (Some sd) True i
       = Inr (AList.delete ''_meta'' sd, snd (populate_from_cache sd i), [])"
    by (simp add: populate_from_source_def populate_from_cache_def Let_def)
  moreover have "map_of (AList.delete ''_meta'' sd) = (map_of sd)(''_meta'' := None)"
    by (rule delete_conv')
  ultimately show ?thesis unfolding d by blast
qed

theorem cache_replay_returns_snapshot_without_meta_witness:
  "\<exists>i'. populate_from_source py_dict_attrs no_options small_backend (Some cached_snapshot) True
           no_inventory
         = Inr ([(''poweredOn'', Entry (Some [''web1_u1'']) None)], i', [])"
proof -
  have f: "[kv \<leftarrow> cached_snapshot. fst kv \<noteq> ''_meta'']
             = [(''poweredOn'', Entry (Some [''web1_u1'']) None)]"
    by code_simp
  from cache_replay_returns_snapshot_without_meta
    [of py_dict_attrs no_options small_backend cached_snapshot no_inventory]
  show ?thesis unfolding f by blast
qed

text \<open>
  The returned mapping differs from the snapshot that was read: the snapshot has a \<^verbatim>\<open>_meta\<close>
  entry, the mapping returned has none.
\<close>

theorem cache_replay_drops_meta_counterexample:
  "map_sum id fst
     (populate_from_source py_dict_attrs no_options small_backend (Some cached_snapshot) True
        no_inventory)
     = Inr [(''poweredOn'', Entry (Some [''web1_u1'']) None)]
   \<and> map_of cached_snapshot ''_meta''
     = Some (Entry None (Some [(''web1_u1'',
                                [(''ansible_host'', Some (Prim (JStr ''10.0.0.5'') []))])]))
   \<and> [(''poweredOn'', Entry (Some [''web1_u1'']) None)] \<noteq> cached_snapshot"
  by code_simp




text \<open>
  C8.  In the snapshot returned by a live run, every host key in the member list of any entry
  has an entry under \<^verbatim>\<open>_meta\<close>, \<^verbatim>\<open>hostvars\<close>.
\<close>

theorem group_members_have_hostvars:
  assumes "populate_from_source da opts be source_data False i = Inr (res, i', ws)"
    and "map_of res g = Some e" and "entry_hosts e = Some hs" and "h \<in> set hs"
  shows "\<exists>m hv. map_of res ''_meta'' = Some m \<and> entry_hostvars m = Some hv \<and> has_key h hv"
proof -
  let ?t = "if with_tags opts then load_tags be (tag_list be) ([], initial_results, i)
            else ([], initial_results, i)"
  from assms(1) obtain sw st where
    run: "process_vms da opts be (fst ?t)
            \<lparr>cacheable_results = fst (snd ?t), hostvars = [], inv = snd (snd ?t)\<rparr>
            (vm_list be (fst sw)) = Inr st"
    and fin: "copy_hostvars (map fst (hostvars st)) (inv st) (cacheable_results st) = Inr res"
    by (auto simp add: populate_from_source_def Let_def split: sum.splits)
  have "members_known (fst (snd ?t)) {}"
    by (simp add: members_known_initial members_known_load_tags)
  then have "members_known
      (cacheable_results \<lparr>cacheable_results = fst (snd ?t), hostvars = [], inv = snd (snd ?t)\<rparr>)
      (fst ` set (hostvars \<lparr>cacheable_results = fst (snd ?t), hostvars = [], inv = snd (snd ?t)\<rparr>))"
    by simp
  from process_vms_known [OF run this]
  have known: "members_known (cacheable_results st) (fst ` set (hostvars st))" .
  from copy_hostvars_groups [OF fin assms(2)] assms(3) obtain e0 where
    "map_of (cacheable_results st) g = Some e0" "entry_hosts e0 = Some hs" by auto
  with known assms(4) have "h \<in> fst ` set (hostvars st)"
    unfolding members_known_def by blast
  then have "h \<in> set (map fst (hostvars st))" by simp
  from copy_hostvars_covers [OF fin this] show ?thesis .
qed

text \<open>
  The theorem at a run over a backend that lists \<^verbatim>\<open>web1\<close>, \<^verbatim>\<open>web2\<close> and \<^verbatim>\<open>web1\<close> again: the
  run returns, \<^verbatim>\<open>web1_u1\<close> is the one member of \<^verbatim>\<open>poweredOn\<close>, and it has host variables.
\<close>

theorem group_members_have_hostvars_witness:
  "\<exists>res i' ws. populate_from_source py_dict_attrs no_options two_vm_backend None False no_inventory
                 = Inr (res, i', ws)
      \<and> map_of res ''poweredOn'' = Some (Entry (Some [''web1_u1'']) None)
      \<and> (\<exists>m hv. map_of res ''_meta'' = Some m \<and> entry_hostvars m = Some hv
                 \<and> has_key ''web1_u1'' hv)"
proof -
  have "map_sum id (\<lambda>r. map_of (fst r) ''poweredOn'')
          (populate_from_source py_dict_attrs no_options two_vm_backend None False no_inventory)
        = Inr (Some (Entry (Some [''web1_u1'']) None))"
    by code_simp
  then obtain res i' ws where
    r: "populate_from_source py_dict_attrs no_options two_vm_backend None False no_inventory
          = Inr (res, i', ws)"
    and g: "map_of res ''poweredOn'' = Some (Entry (Some [''web1_u1'']) None)"
    by (cases "populate_from_source py_dict_attrs no_options two_vm_backend None False no_inventory")
      auto
  have eh: "entry_hosts (Entry (Some [''web1_u1'']) None) = Some [''web1_u1'']" by simp
  have mem: "''web1_u1'' \<in> set [''web1_u1'']" by simp
  have "\<exists>m hv. map_of res ''_meta'' = Some m \<and> entry_hostvars m = Some hv
                 \<and> has_key ''web1_u1'' hv"
    by (rule group_members_have_hostvars [OF r g eh mem])
  with r g show ?thesis by blast
qed

text \<open>
  C10.  With \<^verbatim>\<open>customValue\<close> among the configured properties and a custom value on the VM
  whose key has no field definition, populating the host's properties raises.  The exception
  is \<^verbatim>\<open>IndexError\<close> unless the getter raised for a property listed before \<^verbatim>\<open>customValue\<close>.
  The exception is not absorbed: the visit of a VM with a new key raises it, the loop over
  the VMs raises it, and the run that lists the VM first fails.
\<close>

theorem custom_value_without_field_definition_raises:
  assumes "opt_properties opts = Some props" and "''customValue'' \<in> set props"
    and "cv \<in> set (customValue vm)" and "\<not> has_key (fst cv) (custom_fields be)"
  shows "(\<exists>e. populate_host_properties da opts be vm h i = Inl e)
       \<and> (list_all (\<lambda>p. \<not> isl (get_object_prop da (vm_object vm) (split_on CHR ''.'' p)))
            (takeWhile (\<lambda>p. p \<noteq> ''customValue'') props)
          \<longrightarrow> populate_host_properties da opts be vm h i = Inl IndexError)
       \<and> (config vm = Some c \<and> \<not> has_key (host_key vm c) (hostvars st)
          \<longrightarrow> (\<exists>e. process_vm da opts be ti st vm = Inl e
                  \<and> process_vms da opts be ti st (vm # objects) = Inl e))
       \<and> (config vm = Some c
          \<longrightarrow> (\<exists>e. populate_from_source da opts (be\<lparr>vm_list := (\<lambda>spec. vm # objects)\<rparr>)
                       source_data False i = Inl e))"
proof (intro conjI impI)
  have fails: "\<exists>e. populate_host_properties da opts be' vm h' i' = Inl e"
    if "custom_fields be' = custom_fields be" for be' h' i'
    using populate_properties_missing [OF assms(2,3), of "custom_fields be"] assms(1,4) that
    by (simp add: populate_host_properties_def)
  show "\<exists>e. populate_host_properties da opts be vm h i = Inl e"
    by (rule fails) simp
  show "populate_host_properties da opts be vm h i = Inl IndexError"
    if "list_all (\<lambda>p. \<not> isl (get_object_prop da (vm_object vm) (split_on CHR ''.'' p)))
            (takeWhile (\<lambda>p. p \<noteq> ''customValue'') props)"
    using populate_properties_index_error [OF assms(2,3,4) that] assms(1)
    by (simp add: populate_host_properties_def)
  show "\<exists>e. process_vm da opts be ti st vm = Inl e
          \<and> process_vms da opts be ti st (vm # objects) = Inl e"
    if "config vm = Some c \<and> \<not> has_key (host_key vm c) (hostvars st)"
  proof -
    have "\<exists>e. process_vm da opts be ti st vm = Inl e"
      by (rule process_vm_property_failure [of vm c]) (use that fails in auto)
    then show ?thesis by auto
  qed
  show "\<exists>e. populate_from_source da opts (be\<lparr>vm_list := (\<lambda>spec. vm # objects)\<rparr>)
               source_data False i = Inl e"
    if c: "config vm = Some c"
  proof -
    let ?be = "be\<lparr>vm_list := (\<lambda>spec. vm # objects)\<rparr>"
    have one: "\<exists>e. process_vm da opts ?be ti' st' vm = Inl e" if "hostvars st' = []" for ti' st'
      by (rule process_vm_property_failure [of vm c]) (use that c fails in \<open>auto simp add: has_key_def\<close>)
    have all: "\<exists>e. process_vms da opts ?be ti' st' (vm # objects) = Inl e"
      if "hostvars st' = []" for ti' st'
    proof -
      from one [OF that, of ti'] obtain e where "process_vm da opts ?be ti' st' vm = Inl e"
        by blast
      then show ?thesis by simp
    qed
    show ?thesis
    proof (cases "get_vm_filter_spec opts ?be")
      case (Inl e)
      then show ?thesis by (simp add: populate_from_source_def)
    next
      case (Inr sw)
      let ?t = "if with_tags opts then load_tags ?be (tag_list ?be) ([], initial_results, i)
                else ([], initial_results, i)"
      from all [of "\<lparr>cacheable_results = fst (snd ?t), hostvars = [], inv = snd (snd ?t)\<rparr>" "fst ?t"]
      obtain e where "process_vms da opts ?be (fst ?t)
          \<lparr>cacheable_results = fst (snd ?t), hostvars = [], inv = snd (snd ?t)\<rparr>
          (vm # objects) = Inl e"
        by auto
      with Inr show ?thesis
        by (simp add: populate_from_source_def Let_def del: process_vms.simps)
    qed
  qed
qed

theorem custom_value_without_field_definition_raises_witness:
  "opt_properties custom_options = Some [''name'', ''customValue'']
   \<and> (101, Prim (JStr ''blue'') []) \<in> set (customValue web4)
   \<and> config web4 = Some \<lparr>uuid = ''u4'', guestId = Some ''otherLinux64Guest''\<rparr>
   \<and> populate_host_properties py_dict_attrs custom_options small_backend web4 ''web4_u4''
        no_inventory = Inl IndexError
   \<and> (\<exists>e. process_vm py_dict_attrs custom_options small_backend [] start_state web4 = Inl e
         \<and> process_vms py_dict_attrs custom_options small_backend [] start_state [web4, web1] = Inl e)
   \<and> (\<exists>e. populate_from_source py_dict_attrs custom_options
             (small_backend\<lparr>vm_list := (\<lambda>spec. [web4, web1])\<rparr>) None False no_inventory = Inl e)"
proof -
  let ?c = "\<lparr>uuid = ''u4'', guestId = Some ''otherLinux64Guest''\<rparr>"
  have p: "opt_properties custom_options = Some [''name'', ''customValue'']" by code_simp
  have m: "''customValue'' \<in> set [''name'', ''customValue'']" by simp
  have v: "(101, Prim (JStr ''blue'') []) \<in> set (customValue web4)" by code_simp
  have f: "\<not> has_key (fst (101 :: int, Prim (JStr ''blue'') [])) (custom_fields small_backend)"
    by code_simp
  have c: "config web4 = Some ?c" by code_simp
  have g: "list_all (\<lambda>p. \<not> isl (get_object_prop py_dict_attrs (vm_object web4) (split_on CHR ''.'' p)))
            (takeWhile (\<lambda>p. p \<noteq> ''customValue'') [''name'', ''customValue''])"
    by code_simp
  have n: "\<not> has_key (host_key web4 ?c) (hostvars start_state)" by code_simp
  note t = custom_value_without_field_definition_raises [OF p m v f]
  have 1: "populate_host_properties py_dict_attrs custom_options small_backend web4 ''web4_u4''
        no_inventory = Inl IndexError"
    by (rule t [THEN conjunct2, THEN conjunct1, rule_format, OF g])
  have 2: "\<exists>e. process_vm py_dict_attrs custom_options small_backend [] start_state web4 = Inl e
         \<and> process_vms py_dict_attrs custom_options small_backend [] start_state [web4, web1] = Inl e"
    by (rule t [THEN conjunct2, THEN conjunct2, THEN conjunct1, rule_format, OF conjI [OF c n]])
  have 3: "\<exists>e. populate_from_source py_dict_attrs custom_options
             (small_backend\<lparr>vm_list := (\<lambda>spec. [web4, web1])\<rparr>) None False no_inventory = Inl e"
    by (rule t [THEN conjunct2, THEN conjunct2, THEN conjunct2, rule_format, OF c])
  from p v c 1 2 3 show ?thesis by blast
qed


end
